theory Spec2Isabelle
  imports Complex_Main "HOL-Library.Word"
begin

section \<open>Floating-point values\<close>

text \<open>
  The program computes on 64-bit floats held in pandas columns. A value is modelled as a
  real number or one of the three special values: \<open>NaN\<close> (the "no value" marker of
  pandas), \<open>PInf\<close> and \<open>NInf\<close>. Finite arithmetic is exact (no rounding error, no
  overflow to infinity) and zero has no sign: a positive finite value divided by zero is
  \<open>PInf\<close>. The special values follow IEEE 754.
\<close>

datatype fval = NaN | PInf | NInf | Fin real

fun is_nan :: "fval \<Rightarrow> bool" where
  "is_nan NaN = True"
| "is_nan _ = False"

fun fneg :: "fval \<Rightarrow> fval" where
  "fneg NaN = NaN"
| "fneg PInf = NInf"
| "fneg NInf = PInf"
| "fneg (Fin a) = Fin (- a)"

fun fadd :: "fval \<Rightarrow> fval \<Rightarrow> fval" where
  "fadd NaN _ = NaN"
| "fadd _ NaN = NaN"
| "fadd PInf NInf = NaN"
| "fadd NInf PInf = NaN"
| "fadd PInf _ = PInf"
| "fadd _ PInf = PInf"
| "fadd NInf _ = NInf"
| "fadd _ NInf = NInf"
| "fadd (Fin a) (Fin b) = Fin (a + b)"

definition fsub :: "fval \<Rightarrow> fval \<Rightarrow> fval" where
  "fsub a b = fadd a (fneg b)"

text \<open>The infinity whose sign is that of a non-zero real.\<close>

definition inf_sign :: "real \<Rightarrow> fval" where
  "inf_sign s = (if 0 < s then PInf else NInf)"

fun fmul :: "fval \<Rightarrow> fval \<Rightarrow> fval" where
  "fmul NaN _ = NaN"
| "fmul _ NaN = NaN"
| "fmul PInf PInf = PInf"
| "fmul PInf NInf = NInf"
| "fmul NInf PInf = NInf"
| "fmul NInf NInf = PInf"
| "fmul PInf (Fin b) = (if b = 0 then NaN else inf_sign b)"
| "fmul NInf (Fin b) = (if b = 0 then NaN else inf_sign (- b))"
| "fmul (Fin a) PInf = (if a = 0 then NaN else inf_sign a)"
| "fmul (Fin a) NInf = (if a = 0 then NaN else inf_sign (- a))"
| "fmul (Fin a) (Fin b) = Fin (a * b)"

fun fdiv :: "fval \<Rightarrow> fval \<Rightarrow> fval" where
  "fdiv NaN _ = NaN"
| "fdiv _ NaN = NaN"
| "fdiv PInf PInf = NaN"
| "fdiv PInf NInf = NaN"
| "fdiv NInf PInf = NaN"
| "fdiv NInf NInf = NaN"
| "fdiv PInf (Fin b) = (if 0 \<le> b then PInf else NInf)"
| "fdiv NInf (Fin b) = (if 0 \<le> b then NInf else PInf)"
| "fdiv (Fin a) PInf = Fin 0"
| "fdiv (Fin a) NInf = Fin 0"
| "fdiv (Fin a) (Fin b) =
     (if b = 0 then (if a = 0 then NaN else inf_sign a) else Fin (a / b))"

text \<open>\<open>a > b\<close> on floats: every comparison with NaN is false.\<close>

fun fgt :: "fval \<Rightarrow> fval \<Rightarrow> bool" where
  "fgt NaN _ = False"
| "fgt _ NaN = False"
| "fgt NInf _ = False"
| "fgt _ PInf = False"
| "fgt PInf _ = True"
| "fgt _ NInf = True"
| "fgt (Fin a) (Fin b) = (b < a)"

definition flt :: "fval \<Rightarrow> fval \<Rightarrow> bool" where
  "flt a b = fgt b a"

text \<open>\<open>np.sqrt\<close> and \<open>np.log\<close>.\<close>

fun fsqrt :: "fval \<Rightarrow> fval" where
  "fsqrt NaN = NaN"
| "fsqrt PInf = PInf"
| "fsqrt NInf = NaN"
| "fsqrt (Fin a) = (if a < 0 then NaN else Fin (sqrt a))"

fun flog :: "fval \<Rightarrow> fval" where
  "flog NaN = NaN"
| "flog PInf = PInf"
| "flog NInf = NaN"
| "flog (Fin a) = (if a < 0 then NaN else if a = 0 then NInf else Fin (ln a))"

text \<open>
  Python's \<open>round(x, ndigits)\<close> on a float: NaN and the infinities round to themselves,
  a finite value goes to the nearest multiple of \<open>10 ^ -ndigits\<close>, ties to the even one.
\<close>

definition round_half_even :: "real \<Rightarrow> int" where
  "round_half_even y =
     (let f = \<lfloor>y\<rfloor>; d = y - of_int f
      in if d < 1 / 2 then f else if 1 / 2 < d then f + 1
         else if even f then f else f + 1)"

fun py_round :: "fval \<Rightarrow> nat \<Rightarrow> fval" where
  "py_round (Fin a) ndigits = Fin (of_int (round_half_even (a * 10 ^ ndigits)) / 10 ^ ndigits)"
| "py_round x ndigits = x"

text \<open>Truth value of a float in a condition: false exactly for zero.\<close>

fun truthy :: "fval \<Rightarrow> bool" where
  "truthy (Fin a) = (a \<noteq> 0)"
| "truthy _ = True"

section \<open>The pandas operations the program calls\<close>

text \<open>
  A column (\<open>pd.Series\<close>) is the list of its values in index order. All columns of one
  run share the index of the downloaded frame, so a binary operation on two columns is
  elementwise (\<open>map2\<close>).
\<close>

type_synonym series = "fval list"

text \<open>\<open>s.diff()\<close>: NaN at the first position, then the difference to the previous value.\<close>

fun diff :: "series \<Rightarrow> series" where
  "diff [] = []"
| "diff (x # xs) = NaN # map2 fsub xs (x # xs)"

text \<open>\<open>s.where(cond, other)\<close>, the condition computed from the value itself.\<close>

definition where_s :: "(fval \<Rightarrow> bool) \<Rightarrow> fval \<Rightarrow> series \<Rightarrow> series" where
  "where_s cond other s = map (\<lambda>x. if cond x then x else other) s"

text \<open>\<open>s.replace(0, np.nan)\<close>.\<close>

definition replace_s :: "real \<Rightarrow> fval \<Rightarrow> series \<Rightarrow> series" where
  "replace_s to_replace v s = map (\<lambda>x. if x = Fin to_replace then v else x) s"

text \<open>\<open>s.dropna()\<close> removes the NaN entries (infinite ones stay).\<close>

definition dropna :: "series \<Rightarrow> series" where
  "dropna s = filter (\<lambda>x. \<not> is_nan x) s"

text \<open>\<open>s.tail(n)\<close>: the last \<open>n\<close> rows, all of them when there are fewer.\<close>

definition tail :: "nat \<Rightarrow> 'a list \<Rightarrow> 'a list" where
  "tail n xs = drop (length xs - n) xs"

text \<open>
  \<open>s.rolling(w)\<close> with the default \<open>min_periods = w\<close>. The window of position \<open>i\<close> holds
  the \<open>w\<close> values ending at \<open>i\<close>; pandas turns infinite values into NaN before it
  aggregates, and the result is NaN unless the window holds \<open>w\<close> values that are all
  finite. \<open>fin_vals\<close> returns the finite values of a window, or None when one is not.
\<close>

fun fin_vals :: "series \<Rightarrow> real list option" where
  "fin_vals [] = Some []"
| "fin_vals (Fin a # xs) = map_option ((#) a) (fin_vals xs)"
| "fin_vals (_ # xs) = None"

definition window :: "nat \<Rightarrow> 'a list \<Rightarrow> nat \<Rightarrow> 'a list" where
  "window w xs i = take w (drop (i + 1 - w) xs)"

definition roll_at :: "nat \<Rightarrow> (real list \<Rightarrow> fval) \<Rightarrow> series \<Rightarrow> nat \<Rightarrow> fval" where
  "roll_at w agg s i =
     (if i + 1 < w then NaN
      else case fin_vals (window w s i) of None \<Rightarrow> NaN | Some vs \<Rightarrow> agg vs)"

definition rolling :: "nat \<Rightarrow> (real list \<Rightarrow> fval) \<Rightarrow> series \<Rightarrow> series" where
  "rolling w agg s = map (roll_at w agg s) [0..<length s]"

definition agg_sum :: "real list \<Rightarrow> fval" where
  "agg_sum vs = Fin (sum_list vs)"

definition agg_mean :: "real list \<Rightarrow> fval" where
  "agg_mean vs = (if vs = [] then NaN else Fin (sum_list vs / real (length vs)))"

text \<open>\<open>.std()\<close> is the sample standard deviation (\<open>ddof = 1\<close>).\<close>

definition agg_std :: "real list \<Rightarrow> fval" where
  "agg_std vs =
     (if length vs \<le> 1 then NaN
      else let m = sum_list vs / real (length vs)
           in Fin (sqrt (sum_list (map (\<lambda>x. (x - m)\<^sup>2) vs) / real (length vs - 1))))"

definition agg_min :: "real list \<Rightarrow> fval" where
  "agg_min vs = (if vs = [] then NaN else Fin (Min (set vs)))"

definition agg_max :: "real list \<Rightarrow> fval" where
  "agg_max vs = (if vs = [] then NaN else Fin (Max (set vs)))"

text \<open>
  \<open>s.ewm(span=n, adjust=False).mean()\<close> with the defaults \<open>ignore_na=False\<close> and
  \<open>min_periods=0\<close>. The smoothing factor is \<open>2 / (n + 1)\<close>. The state is the running
  average \<open>weighted\<close> and the weight \<open>old_wt\<close> of the past: the output is NaN until the
  first observation, a NaN input carries the average forward and ages the weight.
\<close>

definition ewm_step :: "real \<Rightarrow> fval \<times> real \<Rightarrow> fval \<Rightarrow> fval \<times> real" where
  "ewm_step alpha st cur =
     (let (weighted, old_wt) = st
      in if \<not> is_nan weighted then
           (let old_wt' = old_wt * (1 - alpha)
            in if \<not> is_nan cur then
                 ((if weighted \<noteq> cur
                   then fdiv (fadd (fmul (Fin old_wt') weighted) (fmul (Fin alpha) cur))
                          (Fin (old_wt' + alpha))
                   else weighted), 1)
               else (weighted, old_wt'))
         else if \<not> is_nan cur then (cur, old_wt)
         else (weighted, old_wt))"

fun ewm_loop :: "real \<Rightarrow> fval \<times> real \<Rightarrow> series \<Rightarrow> series" where
  "ewm_loop alpha st [] = []"
| "ewm_loop alpha st (cur # xs) =
     (let st' = ewm_step alpha st cur in fst st' # ewm_loop alpha st' xs)"

fun ewm_mean :: "nat \<Rightarrow> series \<Rightarrow> series" where
  "ewm_mean n [] = []"
| "ewm_mean n (x # xs) = x # ewm_loop (2 / (real n + 1)) (x, 1) xs"

section \<open>The indicators\<close>

definition rsi :: "series \<Rightarrow> nat \<Rightarrow> series" where
  "rsi s period =
     (let delta = diff s;
          gain = rolling period agg_mean (where_s (\<lambda>d. fgt d (Fin 0)) (Fin 0) delta);
          loss = rolling period agg_mean
                   (map fneg (where_s (\<lambda>d. flt d (Fin 0)) (Fin 0) delta));
          rs = map2 fdiv gain (replace_s 0 NaN loss)
      in map (\<lambda>r. fsub (Fin 100) (fdiv (Fin 100) (fadd (Fin 1) r))) rs)"

text \<open>The columns \<open>gain\<close> and \<open>loss\<close> inside \<open>rsi\<close>: the rolling average gain and loss.\<close>

definition rsi_gain :: "series \<Rightarrow> nat \<Rightarrow> series" where
  "rsi_gain s period = rolling period agg_mean (where_s (\<lambda>d. fgt d (Fin 0)) (Fin 0) (diff s))"

definition rsi_loss :: "series \<Rightarrow> nat \<Rightarrow> series" where
  "rsi_loss s period =
     rolling period agg_mean (map fneg (where_s (\<lambda>d. flt d (Fin 0)) (Fin 0) (diff s)))"

definition macd :: "series \<Rightarrow> nat \<Rightarrow> nat \<Rightarrow> nat \<Rightarrow> series \<times> series \<times> series" where
  "macd s fast slow signal =
     (let ema_fast = ewm_mean fast s;
          ema_slow = ewm_mean slow s;
          macd_line = map2 fsub ema_fast ema_slow;
          signal_line = ewm_mean signal macd_line;
          hist = map2 fsub macd_line signal_line
      in (macd_line, signal_line, hist))"

definition bollinger :: "series \<Rightarrow> nat \<Rightarrow> real \<Rightarrow> series \<times> series \<times> series" where
  "bollinger s w mult =
     (let ma = rolling w agg_mean s;
          std = rolling w agg_std s;
          upper = map2 fadd ma (map (fmul (Fin mult)) std);
          lower = map2 fsub ma (map (fmul (Fin mult)) std)
      in (ma, upper, lower))"

section \<open>The downloaded frame\<close>

text \<open>
  One row of the frame returned by the download, after the columns are renamed to title
  case: the index entry (a calendar date as year, month, day) and the five columns the
  program reads. Prices are floats without missing values. The volume column is int64:
  a volume is a signed 64-bit word, and sums and differences of volumes wrap around.
\<close>

record bar =
  Date :: "nat \<times> nat \<times> nat"
  Open :: real
  High :: real
  Low :: real
  Close :: real
  Volume :: "64 word"

text \<open>A price column and the volume column of the frame, as float columns.\<close>

definition col :: "(bar \<Rightarrow> real) \<Rightarrow> bar list \<Rightarrow> series" where
  "col f df = map (\<lambda>b. Fin (f b)) df"

definition vol_col :: "bar list \<Rightarrow> series" where
  "vol_col df = map (\<lambda>b. Fin (real_of_int (sint (Volume b)))) df"

text \<open>The typical price \<open>tp\<close> of the source is computed and never read.\<close>

definition chaikin_mf :: "bar list \<Rightarrow> nat \<Rightarrow> series" where
  "chaikin_mf df period =
     (let mf_mult = map2 fdiv
            (map2 fsub (map2 fsub (col Close df) (col Low df))
                       (map2 fsub (col High df) (col Close df)))
            (replace_s 0 NaN (map2 fsub (col High df) (col Low df)));
          mf_vol = map2 fmul mf_mult (vol_col df);
          cmf = map2 fdiv (rolling period agg_sum mf_vol) (rolling period agg_sum (vol_col df))
      in cmf)"

datatype error = SystemExit string | ValueError

text \<open>
  The loop of \<open>obv\<close>: \<open>i\<close> runs from 1 to \<open>len(df) - 1\<close> and each round appends one
  value to \<open>obv_vals\<close>. The values are int64 like the volumes (the initial 0 becomes one
  when the column is built), so \<open>+\<close> and \<open>-\<close> are those of 64-bit words.
\<close>

function obv_loop :: "bar list \<Rightarrow> nat \<Rightarrow> 64 word list \<Rightarrow> 64 word list" where
  "obv_loop df i obv_vals =
     (if i < length df then
        (if Close (df ! (i - 1)) < Close (df ! i)
         then obv_loop df (Suc i) (obv_vals @ [last obv_vals + Volume (df ! i)])
         else if Close (df ! i) < Close (df ! (i - 1))
         then obv_loop df (Suc i) (obv_vals @ [last obv_vals - Volume (df ! i)])
         else obv_loop df (Suc i) (obv_vals @ [last obv_vals]))
      else obv_vals)"
  by pat_completeness auto
termination
  by (relation "measure (\<lambda>(df, i, obv_vals). length df - i)") auto

text \<open>
  \<open>pd.Series(obv_vals, index=df.index)\<close> raises ValueError when the number of values is
  not the number of rows.
\<close>

definition obv :: "bar list \<Rightarrow> error + 64 word list" where
  "obv df =
     (let obv_vals = obv_loop df 1 [0]
      in if length obv_vals = length df then Inr obv_vals else Inl ValueError)"

section \<open>The run\<close>

text \<open>The frame with the indicator columns that \<open>main\<close> adds to it.\<close>

record frame =
  rows :: "bar list"
  BB_MA20 :: series
  BB_Upper :: series
  BB_Lower :: series
  RSI14 :: series
  MACD :: series
  MACD_Signal :: series
  MACD_Hist :: series
  CMF20 :: series
  OBV :: "64 word list"

definition enrich :: "bar list \<Rightarrow> error + frame" where
  "enrich df =
     (let (ma, upper, lower) = bollinger (col Close df) 20 2;
          rsi14 = rsi (col Close df) 14;
          (macd_line, signal_line, hist) = macd (col Close df) 12 26 9;
          cmf = chaikin_mf df 20
      in case obv df of
           Inl e \<Rightarrow> Inl e
         | Inr obv_vals \<Rightarrow>
             Inr \<lparr>rows = df, BB_MA20 = ma, BB_Upper = upper, BB_Lower = lower,
                  RSI14 = rsi14, MACD = macd_line, MACD_Signal = signal_line,
                  MACD_Hist = hist, CMF20 = cmf, OBV = obv_vals\<rparr>)"

definition tail_frame :: "nat \<Rightarrow> frame \<Rightarrow> frame" where
  "tail_frame n fr =
     \<lparr>rows = tail n (rows fr), BB_MA20 = tail n (BB_MA20 fr), BB_Upper = tail n (BB_Upper fr),
      BB_Lower = tail n (BB_Lower fr), RSI14 = tail n (RSI14 fr), MACD = tail n (MACD fr),
      MACD_Signal = tail n (MACD_Signal fr), MACD_Hist = tail n (MACD_Hist fr),
      CMF20 = tail n (CMF20 fr), OBV = tail n (OBV fr)\<rparr>"

text \<open>
  Support and resistance: the 5-bar rolling minimum of Low and maximum of High over the
  last 40 rows, read at the last row.
\<close>

definition support :: "bar list \<Rightarrow> fval" where
  "support df = (let recent = tail 40 df in last (tail 1 (rolling 5 agg_min (col Low recent))))"

definition resistance :: "bar list \<Rightarrow> fval" where
  "resistance df =
     (let recent = tail 40 df in last (tail 1 (rolling 5 agg_max (col High recent))))"

text \<open>The 20-day historical volatility, or None when there are at most 20 log-returns.\<close>

definition logret :: "bar list \<Rightarrow> series" where
  "logret df = diff (map flog (col Close df))"

definition hv20 :: "bar list \<Rightarrow> fval option" where
  "hv20 df =
     (if 20 < length (dropna (logret df))
      then Some (fmul (last (rolling 20 agg_std (logret df))) (fsqrt (Fin 252)))
      else None)"

text \<open>
  The snapshot written as JSON. A field that the source fills with
  \<open>float(x) if not np.isnan(x) else None\<close> is an optional float, None being \<open>null\<close>.
\<close>

definition nan_to_none :: "fval \<Rightarrow> fval option" where
  "nan_to_none x = (if \<not> is_nan x then Some x else None)"

record price_rec =
  price_close :: fval
  price_open :: fval
  price_high :: fval
  price_low :: fval
  price_volume :: int

record bollinger_rec =
  bb_ma20 :: "fval option"
  bb_upper :: "fval option"
  bb_lower :: "fval option"

record macd_rec =
  m_line :: "fval option"
  m_signal :: "fval option"
  m_hist :: "fval option"

record indicators_rec =
  ind_bollinger :: bollinger_rec
  ind_rsi14 :: "fval option"
  ind_macd :: macd_rec
  ind_cmf20 :: "fval option"
  ind_obv :: "fval option"

record levels_rec =
  support_hint :: fval
  resistance_hint :: fval

record volatility_rec =
  hv20_proxy :: "fval option"
  iv_atm_estimate_note :: string

record payload =
  ticker :: string
  as_of :: "nat \<times> nat \<times> nat"
  price :: price_rec
  indicators :: indicators_rec
  levels :: levels_rec
  volatility :: volatility_rec

definition TICKER :: string where
  "TICKER = ''RHM.DE''"

text \<open>The note of the source, its umlaut as the two bytes of UTF-8.\<close>

definition note_text :: string where
  "note_text = ''Wenn echte ATM-IV (Eurex) verf'' @ [CHR 0xC3, CHR 0xBC] @
     ''gbar, hier einf'' @ [CHR 0xC3, CHR 0xBC] @ ''gen; aktuell HV20 als Proxy.''"

definition build_payload :: "frame \<Rightarrow> payload" where
  "build_payload fr =
     (let df = rows fr; latest = last df
      in \<lparr>ticker = TICKER,
          as_of = Date (last df),
          price = \<lparr>price_close = Fin (Close latest), price_open = Fin (Open latest),
                   price_high = Fin (High latest), price_low = Fin (Low latest),
                   price_volume = sint (Volume latest)\<rparr>,
          indicators =
            \<lparr>ind_bollinger =
               \<lparr>bb_ma20 = nan_to_none (last (BB_MA20 fr)),
                bb_upper = nan_to_none (last (BB_Upper fr)),
                bb_lower = nan_to_none (last (BB_Lower fr))\<rparr>,
             ind_rsi14 = nan_to_none (last (RSI14 fr)),
             ind_macd =
               \<lparr>m_line = nan_to_none (last (MACD fr)),
                m_signal = nan_to_none (last (MACD_Signal fr)),
                m_hist = nan_to_none (last (MACD_Hist fr))\<rparr>,
             ind_cmf20 = nan_to_none (last (CMF20 fr)),
             ind_obv = nan_to_none (Fin (real_of_int (sint (last (OBV fr)))))\<rparr>,
          levels = \<lparr>support_hint = py_round (support df) 2,
                    resistance_hint = py_round (resistance df) 2\<rparr>,
          volatility =
            \<lparr>hv20_proxy =
               (case hv20 df of
                  None \<Rightarrow> None
                | Some h \<Rightarrow> if truthy h then Some (py_round h 4) else None),
             iv_atm_estimate_note = note_text\<rparr>\<rparr>)"

text \<open>
  The two files \<open>main\<close> writes, None while a file has not been written. \<open>main\<close> takes
  the downloaded frame and the files before the run, and returns the exception that ended
  the run, if any, with the files after it.
\<close>

record files =
  rhm_latest_json :: "payload option"
  rhm_prices_last120_csv :: "frame option"

definition main :: "bar list \<Rightarrow> files \<Rightarrow> error option \<times> files" where
  "main df fs =
     (if df = [] then (Some (SystemExit ''Keine Daten geladen.''), fs)
      else case enrich df of
             Inl e \<Rightarrow> (Some e, fs)
           | Inr fr \<Rightarrow>
               (None, fs\<lparr>rhm_latest_json := Some (build_payload fr),
                          rhm_prices_last120_csv := Some (tail_frame 120 fr)\<rparr>))"

section \<open>Definitions used to state and prove the properties\<close>

text \<open>The value one round of the loop of \<open>obv\<close> appends, from the previous value.\<close>

definition obv_next :: "bar list \<Rightarrow> nat \<Rightarrow> 64 word \<Rightarrow> 64 word" where
  "obv_next df k prev =
     (if Close (df ! (k - 1)) < Close (df ! k) then prev + Volume (df ! k)
      else if Close (df ! k) < Close (df ! (k - 1)) then prev - Volume (df ! k)
      else prev)"

text \<open>
  The integer that a signed 64-bit word holds after an operation whose exact result is
  \<open>k\<close>: \<open>k\<close> itself when it lies between \<open>- 2 ^ 63\<close> and \<open>2 ^ 63 - 1\<close>.
\<close>

definition wrap64 :: "int \<Rightarrow> int" where
  "wrap64 k = (k + 2 ^ 63) mod 2 ^ 64 - 2 ^ 63"

text \<open>A float that is NaN or a non-negative real.\<close>

definition nonneg_or_nan :: "fval \<Rightarrow> bool" where
  "nonneg_or_nan x = (case x of NaN \<Rightarrow> True | Fin a \<Rightarrow> 0 \<le> a | _ \<Rightarrow> False)"

text \<open>
  The exponential moving average as the recurrence on reals: the first value is the
  seed, each later value is \<open>(1 - alpha) * previous + alpha * x\<close>. \<open>macd_real\<close> is
  \<open>macd\<close> on reals with the spans 12, 26 and 9. Both are compared with the pandas
  operations above on columns without missing values.
\<close>

fun ema_rec :: "real \<Rightarrow> real \<Rightarrow> real list \<Rightarrow> real list" where
  "ema_rec alpha y [] = []"
| "ema_rec alpha y (x # xs) = (let y' = (1 - alpha) * y + alpha * x in y' # ema_rec alpha y' xs)"

fun ema :: "nat \<Rightarrow> real list \<Rightarrow> real list" where
  "ema n [] = []"
| "ema n (x # xs) = x # ema_rec (2 / (real n + 1)) x xs"

definition macd_real :: "real list \<Rightarrow> real list \<times> real list \<times> real list" where
  "macd_real cs =
     (let l = map2 (-) (ema 12 cs) (ema 26 cs); sg = ema 9 l
      in (l, sg, map2 (-) l sg))"

text \<open>The snapshot that a run writes when no file exists before it.\<close>

definition no_files :: files where
  "no_files = \<lparr>rhm_latest_json = None, rhm_prices_last120_csv = None\<rparr>"

definition snapshot :: "bar list \<Rightarrow> payload option" where
  "snapshot df = rhm_latest_json (snd (main df no_files))"

subsection \<open>Example inputs\<close>

text \<open>Three bars: the close rises, then falls.\<close>

definition ex3 :: "bar list" where
  "ex3 = [\<lparr>Date = (2024, 1, 2), Open = 10, High = 11, Low = 9, Close = 10, Volume = 100\<rparr>,
          \<lparr>Date = (2024, 1, 3), Open = 10, High = 12, Low = 10, Close = 11, Volume = 200\<rparr>,
          \<lparr>Date = (2024, 1, 4), Open = 11, High = 11, Low = 10, Close = 21 / 2, Volume = 300\<rparr>]"

text \<open>Three bars with a rising close; the last two volumes are \<open>2 ^ 62\<close>.\<close>

definition big3 :: "bar list" where
  "big3 = [\<lparr>Date = (2024, 1, 2), Open = 10, High = 11, Low = 9, Close = 10, Volume = 100\<rparr>,
           \<lparr>Date = (2024, 1, 3), Open = 10, High = 12, Low = 10, Close = 11,
            Volume = 4611686018427387904\<rparr>,
           \<lparr>Date = (2024, 1, 4), Open = 11, High = 13, Low = 11, Close = 12,
            Volume = 4611686018427387904\<rparr>]"

text \<open>One bar.\<close>

definition one_bar :: "bar list" where
  "one_bar = [\<lparr>Date = (2024, 1, 2), Open = 10, High = 11, Low = 9, Close = 10, Volume = 100\<rparr>]"

text \<open>\<open>n\<close> bars on consecutive dates, every price 100.\<close>

definition flat_bars :: "nat \<Rightarrow> bar list" where
  "flat_bars n = map (\<lambda>k. \<lparr>Date = (2024, 1, Suc k), Open = 100, High = 100, Low = 100,
                            Close = 100, Volume = 1000\<rparr>) [0..<n]"

text \<open>Fourteen prices that alternate, fourteen that rise, and the prices 1 to 20.\<close>

definition s14 :: series where
  "s14 = map Fin [1, 2, 1, 2, 1, 2, 1, 2, 1, 2, 1, 2, 1, 2]"

definition up14 :: series where
  "up14 = map Fin [1, 2, 3, 4, 5, 6, 7, 8, 9, 10, 11, 12, 13, 14]"

definition s20 :: series where
  "s20 = map Fin [1, 2, 3, 4, 5, 6, 7, 8, 9, 10, 11, 12, 13, 14, 15, 16, 17, 18, 19, 20]"

text \<open>Twenty-five bars of which only the sixth has High = Low.\<close>

definition cmf_bars :: "bar list" where
  "cmf_bars = map (\<lambda>k. \<lparr>Date = (2024, 1, Suc k), Open = 10,
                           High = (if k = 5 then 10 else 11), Low = (if k = 5 then 10 else 9),
                           Close = 10, Volume = 100\<rparr>) [0..<25]"

text \<open>
  Six bars. The lowest low and the highest high are in the first bar, outside the last
  five; the extremes of the last five are 9.337 and 10.125.
\<close>

definition ex6 :: "bar list" where
  "ex6 = [\<lparr>Date = (2024, 1, 2), Open = 10, High = 50, Low = 1, Close = 10, Volume = 100\<rparr>,
          \<lparr>Date = (2024, 1, 3), Open = 10, High = 101 / 10, Low = 9337 / 1000, Close = 10,
           Volume = 100\<rparr>,
          \<lparr>Date = (2024, 1, 4), Open = 10, High = 10125 / 1000, Low = 98 / 10, Close = 10,
           Volume = 100\<rparr>,
          \<lparr>Date = (2024, 1, 5), Open = 10, High = 10, Low = 99 / 10, Close = 10, Volume = 100\<rparr>,
          \<lparr>Date = (2024, 1, 8), Open = 10, High = 1005 / 100, Low = 10, Close = 10,
           Volume = 100\<rparr>,
          \<lparr>Date = (2024, 1, 9), Open = 10, High = 101 / 10, Low = 97 / 10, Close = 10,
           Volume = 100\<rparr>]"

section \<open>Auxiliary lemmas\<close>

subsection \<open>Lengths and the loop of obv\<close>

lemma length_rolling [simp]: "length (rolling w agg s) = length s"
  by (simp add: rolling_def)

lemma rolling_nth: "i < length s \<Longrightarrow> rolling w agg s ! i = roll_at w agg s i"
  by (simp add: rolling_def)

lemma length_diff [simp]: "length (diff s) = length s"
  by (cases s) simp_all

lemma obv_loop_length:
  "i \<le> length df \<Longrightarrow> length vals = i \<Longrightarrow> length (obv_loop df i vals) = length df"
proof (induction df i vals rule: obv_loop.induct)
  case (1 df i obv_vals)
  show ?case
  proof (cases "i < length df")
    case True
    with "1.prems" "1.IH" show ?thesis
      by (subst obv_loop.simps) (simp del: obv_loop.simps)
  next
    case False
    with "1.prems" show ?thesis by simp
  qed
qed

lemma obv_loop_prefix:
  "j < length vals \<Longrightarrow> obv_loop df i vals ! j = vals ! j"
proof (induction df i vals rule: obv_loop.induct)
  case (1 df i obv_vals)
  show ?case
  proof (cases "i < length df")
    case True
    with "1.prems" "1.IH" show ?thesis
      by (subst obv_loop.simps) (simp del: obv_loop.simps add: nth_append)
  next
    case False
    then show ?thesis by simp
  qed
qed

lemma obv_loop_step:
  "length vals = i \<Longrightarrow> 0 < i \<Longrightarrow> i \<le> k \<Longrightarrow> k < length df \<Longrightarrow>
   obv_loop df i vals ! k = obv_next df k (obv_loop df i vals ! (k - 1))"
proof (induction df i vals rule: obv_loop.induct)
  case (1 df i obv_vals)
  from "1.prems" have lt: "i < length df" by simp
  from "1.prems" have ne: "obv_vals \<noteq> []" by auto
  let ?v = "obv_next df i (last obv_vals)"
  have unf: "obv_loop df i obv_vals = obv_loop df (Suc i) (obv_vals @ [?v])"
    using lt by (subst obv_loop.simps) (simp del: obv_loop.simps add: obv_next_def)
  show ?case
  proof (cases "k = i")
    case True
    have a: "obv_loop df (Suc i) (obv_vals @ [?v]) ! i = ?v"
      using "1.prems"(1) by (subst obv_loop_prefix) (simp_all add: nth_append)
    have b: "obv_loop df (Suc i) (obv_vals @ [?v]) ! (i - 1) = last obv_vals"
      using "1.prems"(1,2) ne by (subst obv_loop_prefix) (simp_all add: nth_append last_conv_nth)
    show ?thesis unfolding unf True a b ..
  next
    case False
    with "1.prems" have k: "Suc i \<le> k" by simp
    have len: "length (obv_vals @ [?v]) = Suc i" using "1.prems"(1) by simp
    consider (a) "Close (df ! (i - 1)) < Close (df ! i)"
      | (b) "\<not> Close (df ! (i - 1)) < Close (df ! i)" "Close (df ! i) < Close (df ! (i - 1))"
      | (c) "\<not> Close (df ! (i - 1)) < Close (df ! i)" "\<not> Close (df ! i) < Close (df ! (i - 1))"
      by blast
    then show ?thesis
    proof cases
      case a
      then have v: "?v = last obv_vals + Volume (df ! i)" by (simp add: obv_next_def)
      show ?thesis unfolding unf
        using "1.IH"(1)[OF lt a _ _ k "1.prems"(4)] len unfolding v by simp
    next
      case b
      then have v: "?v = last obv_vals - Volume (df ! i)" by (simp add: obv_next_def)
      show ?thesis unfolding unf
        using "1.IH"(2)[OF lt b _ _ k "1.prems"(4)] len unfolding v by simp
    next
      case c
      then have v: "?v = last obv_vals" by (simp add: obv_next_def)
      show ?thesis unfolding unf
        using "1.IH"(3)[OF lt c _ _ k "1.prems"(4)] len unfolding v by simp
    qed
  qed
qed

subsection \<open>Rolling windows\<close>

lemma fin_vals_Some_iff: "fin_vals xs = Some vs \<longleftrightarrow> xs = map Fin vs"
proof (induction xs arbitrary: vs)
  case Nil
  then show ?case by auto
next
  case (Cons x xs)
  then show ?case by (cases x) auto
qed

lemma fin_vals_map_Fin [simp]: "fin_vals (map Fin vs) = Some vs"
  by (simp add: fin_vals_Some_iff)

lemma fin_vals_not_fin:
  "x \<in> set xs \<Longrightarrow> \<forall>a. x \<noteq> Fin a \<Longrightarrow> fin_vals xs = None"
proof (cases "fin_vals xs")
  case None
  then show ?thesis .
next
  case (Some vs)
  assume "x \<in> set xs" "\<forall>a. x \<noteq> Fin a"
  with Some show ?thesis by (auto simp: fin_vals_Some_iff)
qed

lemma roll_at_short: "i + 1 < w \<Longrightarrow> roll_at w agg s i = NaN"
  by (simp add: roll_at_def)

lemma roll_at_cases:
  obtains (nan) "roll_at w agg s i = NaN"
  | (val) vs where "w \<le> i + 1" "window w s i = map Fin vs" "roll_at w agg s i = agg vs"
proof (cases "i + 1 < w")
  case True
  then show ?thesis using nan by (simp add: roll_at_def)
next
  case False
  show ?thesis
  proof (cases "fin_vals (window w s i)")
    case None
    with False show ?thesis using nan by (simp add: roll_at_def)
  next
    case (Some vs)
    with False show ?thesis using val[of vs] by (simp add: roll_at_def fin_vals_Some_iff)
  qed
qed

lemma window_subset: "set (window w s i) \<subseteq> set s"
  unfolding window_def by (meson set_take_subset set_drop_subset subset_trans)

lemma window_length: "i < length s \<Longrightarrow> w \<le> i + 1 \<Longrightarrow> length (window w s i) = w"
  by (simp add: window_def)

lemma window_nth_mem:
  assumes "j \<le> i" "i < j + w" "i < length s" "w \<le> i + 1"
  shows "s ! j \<in> set (window w s i)"
proof -
  let ?k = "j - (i + 1 - w)"
  have k: "?k < w" using assms by simp
  have "window w s i ! ?k = s ! j"
    using assms by (simp add: window_def)
  moreover have "?k < length (window w s i)"
    using assms k by (simp add: window_length)
  ultimately show ?thesis by (metis nth_mem)
qed

lemma roll_at_poison:
  assumes "j \<le> i" "i < j + w" "i < length s" "\<forall>a. s ! j \<noteq> Fin a"
  shows "roll_at w agg s i = NaN"
proof (cases "i + 1 < w")
  case True
  then show ?thesis by (simp add: roll_at_def)
next
  case False
  then have "s ! j \<in> set (window w s i)"
    using assms by (intro window_nth_mem) simp_all
  then have "fin_vals (window w s i) = None"
    using assms(4) by (rule fin_vals_not_fin)
  with False show ?thesis by (simp add: roll_at_def)
qed

subsection \<open>Positions of the indicator columns\<close>

lemma fadd_NaN_right [simp]: "fadd x NaN = NaN" by (cases x) simp_all
lemma fmul_NaN_right [simp]: "fmul x NaN = NaN" by (cases x) simp_all
lemma fdiv_NaN_right [simp]: "fdiv x NaN = NaN" by (cases x) simp_all
lemma fsub_NaN_left [simp]: "fsub NaN x = NaN" by (simp add: fsub_def)
lemma fsub_NaN_right [simp]: "fsub x NaN = NaN" by (simp add: fsub_def)
lemma fsub_Fin [simp]: "fsub (Fin a) (Fin b) = Fin (a - b)" by (simp add: fsub_def)

lemma length_col [simp]: "length (col f df) = length df" by (simp add: col_def)
lemma length_vol_col [simp]: "length (vol_col df) = length df" by (simp add: vol_col_def)
lemma col_nth [simp]: "i < length df \<Longrightarrow> col f df ! i = Fin (f (df ! i))" by (simp add: col_def)
lemma length_replace_s [simp]: "length (replace_s a v s) = length s" by (simp add: replace_s_def)
lemma length_where_s [simp]: "length (where_s c v s) = length s" by (simp add: where_s_def)

lemma length_rsi [simp]: "length (rsi s p) = length s"
  by (simp add: rsi_def Let_def)

lemma length_chaikin_mf [simp]: "length (chaikin_mf df p) = length df"
  by (simp add: chaikin_mf_def Let_def)

lemma length_bollinger [simp]:
  "length (fst (bollinger s w m)) = length s"
  "length (fst (snd (bollinger s w m))) = length s"
  "length (snd (snd (bollinger s w m))) = length s"
  by (simp_all add: bollinger_def Let_def)

lemma rsi_nth:
  "i < length s \<Longrightarrow> rsi s p ! i =
     fsub (Fin 100) (fdiv (Fin 100) (fadd (Fin 1)
       (fdiv (rsi_gain s p ! i) (if rsi_loss s p ! i = Fin 0 then NaN else rsi_loss s p ! i))))"
  by (simp add: rsi_def rsi_gain_def rsi_loss_def Let_def replace_s_def)

lemma bollinger_nth:
  assumes "i < length s"
  shows "fst (bollinger s w m) ! i = roll_at w agg_mean s i"
    and "fst (snd (bollinger s w m)) ! i =
           fadd (roll_at w agg_mean s i) (fmul (Fin m) (roll_at w agg_std s i))"
    and "snd (snd (bollinger s w m)) ! i =
           fsub (roll_at w agg_mean s i) (fmul (Fin m) (roll_at w agg_std s i))"
  using assms by (simp_all add: bollinger_def Let_def rolling_nth)

lemma chaikin_mf_nth:
  assumes "i < length df"
  shows "chaikin_mf df p ! i =
     fdiv (roll_at p agg_sum
             (map2 fmul
                (map2 fdiv
                   (map2 fsub (map2 fsub (col Close df) (col Low df))
                              (map2 fsub (col High df) (col Close df)))
                   (replace_s 0 NaN (map2 fsub (col High df) (col Low df))))
                (vol_col df)) i)
          (roll_at p agg_sum (vol_col df) i)"
  using assms by (simp add: chaikin_mf_def Let_def rolling_nth)

lemma short_bollinger:
  assumes "length s < 20"
  shows "fst (bollinger s 20 2) = replicate (length s) NaN"
     and "fst (snd (bollinger s 20 2)) = replicate (length s) NaN"
     and "snd (snd (bollinger s 20 2)) = replicate (length s) NaN"
  using assms by (auto intro!: nth_equalityI simp: bollinger_nth roll_at_short)

lemma short_rsi:
  assumes "length s < 14"
  shows "rsi s 14 = replicate (length s) NaN"
  using assms
  by (auto intro!: nth_equalityI simp: rsi_nth rsi_gain_def rolling_nth roll_at_short)

lemma short_cmf:
  assumes "length df < 20"
  shows "chaikin_mf df 20 = replicate (length df) NaN"
  using assms
  by (auto intro!: nth_equalityI simp: chaikin_mf_nth roll_at_short)

subsection \<open>Signs of the rolling aggregates\<close>

lemma agg_mean_cases: "agg_mean vs = NaN \<or> (\<exists>m. agg_mean vs = Fin m)"
  by (simp add: agg_mean_def)

lemma agg_std_cases: "agg_std vs = NaN \<or> (\<exists>sd. 0 \<le> sd \<and> agg_std vs = Fin sd)"
proof (cases "length vs \<le> 1")
  case True
  then show ?thesis by (simp add: agg_std_def)
next
  case False
  then have "agg_std vs = Fin (sqrt (sum_list (map (\<lambda>x. (x - sum_list vs / real (length vs))\<^sup>2) vs)
                 / real (length vs - 1)))"
    by (simp add: agg_std_def Let_def)
  moreover have "0 \<le> sum_list (map (\<lambda>x. (x - sum_list vs / real (length vs))\<^sup>2) vs)"
    by (rule sum_list_nonneg) auto
  then have "0 \<le> sqrt (sum_list (map (\<lambda>x. (x - sum_list vs / real (length vs))\<^sup>2) vs)
                 / real (length vs - 1))"
    by simp
  ultimately show ?thesis by blast
qed

lemma roll_at_mean_cases:
  "roll_at w agg_mean s i = NaN \<or> (\<exists>m. roll_at w agg_mean s i = Fin m)"
proof (cases rule: roll_at_cases[of w agg_mean s i])
  case nan
  then show ?thesis by simp
next
  case (val vs)
  then show ?thesis using agg_mean_cases[of vs] by simp
qed

lemma roll_at_std_cases:
  "roll_at w agg_std s i = NaN \<or> (\<exists>sd. 0 \<le> sd \<and> roll_at w agg_std s i = Fin sd)"
proof (cases rule: roll_at_cases[of w agg_std s i])
  case nan
  then show ?thesis by simp
next
  case (val vs)
  then show ?thesis using agg_std_cases[of vs] by simp
qed

lemma roll_mean_nonneg:
  assumes "\<And>a. Fin a \<in> set s \<Longrightarrow> 0 \<le> a"
  shows "nonneg_or_nan (roll_at w agg_mean s i)"
proof (cases rule: roll_at_cases[of w agg_mean s i])
  case nan
  then show ?thesis by (simp add: nonneg_or_nan_def)
next
  case (val vs)
  have "0 \<le> a" if "a \<in> set vs" for a
  proof -
    from that have "Fin a \<in> set (window w s i)" using val(2) by simp
    then have "Fin a \<in> set s" using window_subset[of w s i] by (rule rev_subsetD)
    then show ?thesis by (rule assms)
  qed
  then have "0 \<le> sum_list vs" by (simp add: sum_list_nonneg)
  then show ?thesis using val(3) by (simp add: nonneg_or_nan_def agg_mean_def)
qed

lemma gain_nonneg:
  assumes "i < length s" shows "nonneg_or_nan (rsi_gain s p ! i)"
proof -
  have "0 \<le> a" if "Fin a \<in> set (where_s (\<lambda>d. fgt d (Fin 0)) (Fin 0) (diff s))" for a
    using that by (auto simp: where_s_def split: if_splits)
  then have "nonneg_or_nan (roll_at p agg_mean
      (where_s (\<lambda>d. fgt d (Fin 0)) (Fin 0) (diff s)) i)"
    by (rule roll_mean_nonneg)
  then show ?thesis
    using assms by (simp add: rsi_gain_def rolling_nth)
qed

lemma loss_nonneg:
  assumes "i < length s" shows "nonneg_or_nan (rsi_loss s p ! i)"
proof -
  have "0 \<le> a" if "Fin a \<in> set (map fneg (where_s (\<lambda>d. flt d (Fin 0)) (Fin 0) (diff s)))" for a
  proof -
    from that obtain d where d: "Fin a = fneg (if flt d (Fin 0) then d else Fin 0)"
      by (auto simp: where_s_def)
    then show ?thesis by (cases d) (auto simp: flt_def split: if_splits)
  qed
  then have "nonneg_or_nan (roll_at p agg_mean
      (map fneg (where_s (\<lambda>d. flt d (Fin 0)) (Fin 0) (diff s))) i)"
    by (rule roll_mean_nonneg)
  then show ?thesis
    using assms by (simp add: rsi_loss_def rolling_nth)
qed

lemma rsi_bounded:
  assumes "i < length s" "\<not> is_nan (rsi s 14 ! i)"
  shows "\<exists>r. rsi s 14 ! i = Fin r \<and> 0 \<le> r \<and> r \<le> 100"
proof -
  from loss_nonneg[OF assms(1), of 14] assms
  obtain l where l: "rsi_loss s 14 ! i = Fin l" "0 < l"
    by (cases "rsi_loss s 14 ! i") (auto simp: nonneg_or_nan_def rsi_nth split: if_splits)
  from gain_nonneg[OF assms(1), of 14] assms l
  obtain g where g: "rsi_gain s 14 ! i = Fin g" "0 \<le> g"
    by (cases "rsi_gain s 14 ! i") (auto simp: nonneg_or_nan_def rsi_nth split: if_splits)
  have pos: "0 < 1 + g / l" using g l by (simp add: add_pos_nonneg)
  then have eq: "rsi s 14 ! i = Fin (100 - 100 / (1 + g / l))"
    using assms(1) g l by (simp add: rsi_nth)
  have "0 \<le> g / l" using g l by simp
  then have "100 / (1 + g / l) \<le> 100" "0 \<le> 100 / (1 + g / l)"
    by (simp_all add: divide_le_eq)
  with eq show ?thesis by simp
qed

lemma rsi_zero_loss:
  assumes "i < length s" "rsi_loss s 14 ! i = Fin 0"
  shows "rsi s 14 ! i = NaN"
  using assms by (simp add: rsi_nth)

subsection \<open>Exponential moving averages on columns without missing values\<close>

lemma ewm_step_fin:
  "ewm_step alpha (Fin y, 1) (Fin x) = (Fin ((1 - alpha) * y + alpha * x), 1)"
  by (simp add: ewm_step_def Let_def algebra_simps)

lemma ewm_loop_fin: "ewm_loop alpha (Fin y, 1) (map Fin xs) = map Fin (ema_rec alpha y xs)"
  by (induction xs arbitrary: y) (simp_all add: ewm_step_fin Let_def)

lemma ewm_mean_fin: "ewm_mean n (map Fin xs) = map Fin (ema n xs)"
  by (cases xs) (simp_all add: ewm_loop_fin)

lemma length_ema_rec [simp]: "length (ema_rec alpha y xs) = length xs"
  by (induction xs arbitrary: y) (simp_all add: Let_def)

lemma length_ema [simp]: "length (ema n xs) = length xs"
  by (cases xs) simp_all

lemma map2_fsub_Fin: "map2 fsub (map Fin a) (map Fin b) = map Fin (map2 (-) a b)"
proof (induction a arbitrary: b)
  case Nil
  then show ?case by simp
next
  case (Cons x a)
  then show ?case by (cases b) simp_all
qed

lemma macd_fin:
  "macd (map Fin cs) 12 26 9 =
     (map Fin (fst (macd_real cs)), map Fin (fst (snd (macd_real cs))),
      map Fin (snd (snd (macd_real cs))))"
  by (simp only: macd_def macd_real_def Let_def ewm_mean_fin map2_fsub_Fin fst_conv snd_conv)

lemma col_map_Fin: "col f df = map Fin (map f df)"
  by (simp add: col_def)

subsection \<open>The run and its snapshot\<close>

lemma sint_wrap64: "wrap64 (sint (a :: 64 word)) = sint a"
proof -
  have "- (2 ^ 63) \<le> sint a" "sint a < 2 ^ 63"
    using sint_ge[of a] sint_lt[of a] by simp_all
  then show ?thesis by (simp add: wrap64_def)
qed

lemma wrap64_in_range: "- (2 ^ 63) \<le> k \<Longrightarrow> k < 2 ^ 63 \<Longrightarrow> wrap64 k = k"
  by (simp add: wrap64_def)

lemma wrap64_signed_take_bit: "signed_take_bit 63 k = wrap64 k"
  by (simp add: wrap64_def signed_take_bit_eq_take_bit_shift take_bit_eq_mod)

lemma sint_add64: "sint (a + b :: 64 word) = wrap64 (sint a + sint b)"
  by (simp add: sint_word_ariths wrap64_signed_take_bit)

lemma sint_sub64: "sint (a - b :: 64 word) = wrap64 (sint a - sint b)"
  by (simp add: sint_word_ariths wrap64_signed_take_bit)

lemma obv_next_sint:
  assumes "x = obv_next df i p"
  shows "let k = (if Close (df ! (i - 1)) < Close (df ! i)
                        then sint p + sint (Volume (df ! i))
                        else if Close (df ! i) < Close (df ! (i - 1))
                             then sint p - sint (Volume (df ! i))
                        else sint p)
               in sint x = wrap64 k \<and>
                  (- (2 ^ 63) \<le> k \<and> k < 2 ^ 63 \<longrightarrow> sint x = k)"
proof -
  consider (a) "Close (df ! (i - 1)) < Close (df ! i)"
    | (b) "\<not> Close (df ! (i - 1)) < Close (df ! i)" "Close (df ! i) < Close (df ! (i - 1))"
    | (c) "\<not> Close (df ! (i - 1)) < Close (df ! i)" "\<not> Close (df ! i) < Close (df ! (i - 1))"
    by blast
  then show ?thesis
  proof cases
    case a
    then have "sint x = wrap64 (sint p + sint (Volume (df ! i)))"
      unfolding assms obv_next_def by (simp only: if_True sint_add64)
    with a show ?thesis using wrap64_in_range[of "sint p + sint (Volume (df ! i))"]
      by (simp only: Let_def if_True) blast
  next
    case b
    then have "sint x = wrap64 (sint p - sint (Volume (df ! i)))"
      unfolding assms obv_next_def by (simp only: if_True if_False sint_sub64)
    with b show ?thesis using wrap64_in_range[of "sint p - sint (Volume (df ! i))"]
      by (simp only: Let_def if_True if_False) blast
  next
    case c
    then have "sint x = wrap64 (sint p)"
      unfolding assms obv_next_def by (simp only: if_False sint_wrap64)
    with c show ?thesis using wrap64_in_range[of "sint p"]
      by (simp only: Let_def if_False) blast
  qed
qed

lemma obv_nonempty: "df \<noteq> [] \<Longrightarrow> obv df = Inr (obv_loop df 1 [0])"
proof -
  assume "df \<noteq> []"
  then have "1 \<le> length df" by (cases df) simp_all
  then have "length (obv_loop df 1 [0]) = length df"
    by (rule obv_loop_length) simp
  then show ?thesis by (simp add: obv_def Let_def del: obv_loop.simps)
qed

lemma enrich_nonempty:
  assumes "df \<noteq> []"
  shows "\<exists>fr. enrich df = Inr fr \<and> rows fr = df"
  using obv_nonempty[OF assms]
  by (simp add: enrich_def Let_def split: prod.splits del: obv_loop.simps)

lemma main_empty: "main [] fs = (Some (SystemExit ''Keine Daten geladen.''), fs)"
  by (simp add: main_def)

lemma main_nonempty:
  assumes "df \<noteq> []"
  shows "\<exists>fr. enrich df = Inr fr \<and> rows fr = df \<and>
           main df fs = (None, fs\<lparr>rhm_latest_json := Some (build_payload fr),
                                   rhm_prices_last120_csv := Some (tail_frame 120 fr)\<rparr>)"
proof -
  from enrich_nonempty[OF assms] obtain fr where fr: "enrich df = Inr fr" "rows fr = df"
    by blast
  then show ?thesis using assms by (simp add: main_def)
qed

lemma snapshot_nonempty:
  assumes "df \<noteq> []"
  shows "\<exists>fr. rows fr = df \<and> snapshot df = Some (build_payload fr)"
  using main_nonempty[OF assms, of no_files] by (auto simp: snapshot_def)

lemma snapshot_levels:
  assumes "df \<noteq> []"
  shows "map_option (support_hint \<circ> levels) (snapshot df) = Some (py_round (support df) 2)"
    and "map_option (resistance_hint \<circ> levels) (snapshot df) = Some (py_round (resistance df) 2)"
  using snapshot_nonempty[OF assms] by (auto simp: build_payload_def Let_def)

lemma snapshot_volatility:
  assumes "df \<noteq> []"
  shows "map_option (hv20_proxy \<circ> volatility) (snapshot df) =
           Some (case hv20 df of None \<Rightarrow> None
                 | Some h \<Rightarrow> if truthy h then Some (py_round h 4) else None)"
  using snapshot_nonempty[OF assms] by (auto simp: build_payload_def Let_def)

lemma length_tail [simp]: "length (tail n xs) = min n (length xs)"
  by (simp add: tail_def)

lemma tail_tail: "m \<le> n \<Longrightarrow> tail m (tail n xs) = tail m xs"
proof -
  assume "m \<le> n"
  then have "length xs - (length xs - n) - m + (length xs - n) = length xs - m"
    by arith
  then show ?thesis by (simp add: tail_def)
qed

lemma rolling_Nil_iff [simp]: "rolling w agg s = [] \<longleftrightarrow> s = []"
  by (simp add: rolling_def)

lemma col_Nil_iff [simp]: "col f df = [] \<longleftrightarrow> df = []"
  by (simp add: col_def)

lemma tail_Nil_iff [simp]: "tail n xs = [] \<longleftrightarrow> n = 0 \<or> xs = []"
  by (cases xs) (auto simp: tail_def)

lemma tail_map: "tail n (map f xs) = map f (tail n xs)"
  by (simp add: tail_def drop_map)

lemma last_tail_1: "xs \<noteq> [] \<Longrightarrow> last (tail 1 xs) = last xs"
  by (simp add: tail_def)

lemma window_last: "w \<le> length s \<Longrightarrow> window w s (length s - 1) = tail w s"
  by (cases "length s") (simp_all add: window_def tail_def)

lemma last_rolling:
  assumes "0 < w" "w \<le> length s"
  shows "last (rolling w agg s) = (case fin_vals (tail w s) of None \<Rightarrow> NaN | Some vs \<Rightarrow> agg vs)"
proof -
  from assms have ne: "s \<noteq> []" by auto
  then have "last (rolling w agg s) = roll_at w agg s (length s - 1)"
    by (simp add: last_conv_nth rolling_nth)
  also have "\<dots> = (case fin_vals (window w s (length s - 1)) of None \<Rightarrow> NaN
                       | Some vs \<Rightarrow> agg vs)"
  proof -
    have "\<not> length s - 1 + 1 < w" using assms by arith
    then show ?thesis unfolding roll_at_def by (rule if_not_P)
  qed
  also have "window w s (length s - 1) = tail w s"
    using assms(2) by (rule window_last)
  finally show ?thesis .
qed

lemma last_rolling_short:
  assumes "s \<noteq> []" "length s < w"
  shows "last (rolling w agg s) = NaN"
  using assms by (simp add: last_conv_nth rolling_nth roll_at_def)

lemma fin_vals_map_comp [simp]: "fin_vals (map (Fin \<circ> f) xs) = Some (map f xs)"
  using fin_vals_map_Fin[of "map f xs"] by (simp del: fin_vals_map_Fin)

lemma support_last5:
  assumes "5 \<le> length df"
  shows "support df = Fin (Min (set (map Low (tail 5 df))))"
proof -
  let ?recent = "tail 40 df"
  let ?r = "rolling 5 agg_min (col Low ?recent)"
  have len: "5 \<le> length (col Low ?recent)" using assms by simp
  have ne: "?r \<noteq> []" using assms by auto
  have t: "tail 5 (col Low ?recent) = map Fin (map Low (tail 5 df))"
    by (simp add: col_map_Fin tail_map tail_tail)
  have ne5: "map Low (tail 5 df) \<noteq> []" using assms by auto
  have "support df = last (tail 1 ?r)" by (simp add: support_def Let_def)
  also have "\<dots> = last ?r" using ne by (rule last_tail_1)
  also have "\<dots> = (case fin_vals (tail 5 (col Low ?recent)) of None \<Rightarrow> NaN
                       | Some vs \<Rightarrow> agg_min vs)"
    using len by (intro last_rolling) simp_all
  also have "\<dots> = agg_min (map Low (tail 5 df))"
    unfolding t by simp
  also have "\<dots> = Fin (Min (set (map Low (tail 5 df))))"
    using ne5 unfolding agg_min_def by (rule if_not_P)
  finally show ?thesis .
qed

lemma resistance_last5:
  assumes "5 \<le> length df"
  shows "resistance df = Fin (Max (set (map High (tail 5 df))))"
proof -
  let ?recent = "tail 40 df"
  let ?r = "rolling 5 agg_max (col High ?recent)"
  have len: "5 \<le> length (col High ?recent)" using assms by simp
  have ne: "?r \<noteq> []" using assms by auto
  have t: "tail 5 (col High ?recent) = map Fin (map High (tail 5 df))"
    by (simp add: col_map_Fin tail_map tail_tail)
  have ne5: "map High (tail 5 df) \<noteq> []" using assms by auto
  have "resistance df = last (tail 1 ?r)" by (simp add: resistance_def Let_def)
  also have "\<dots> = last ?r" using ne by (rule last_tail_1)
  also have "\<dots> = (case fin_vals (tail 5 (col High ?recent)) of None \<Rightarrow> NaN
                       | Some vs \<Rightarrow> agg_max vs)"
    using len by (intro last_rolling) simp_all
  also have "\<dots> = agg_max (map High (tail 5 df))"
    unfolding t by simp
  also have "\<dots> = Fin (Max (set (map High (tail 5 df))))"
    using ne5 unfolding agg_max_def by (rule if_not_P)
  finally show ?thesis .
qed

lemma support_short:
  assumes "df \<noteq> []" "length df < 5"
  shows "support df = NaN"
proof -
  let ?r = "rolling 5 agg_min (col Low (tail 40 df))"
  have ne: "?r \<noteq> []" using assms by simp
  have "support df = last (tail 1 ?r)" by (simp add: support_def Let_def)
  also have "\<dots> = last ?r" using ne by (rule last_tail_1)
  also have "\<dots> = NaN" using assms by (intro last_rolling_short) simp_all
  finally show ?thesis .
qed

lemma resistance_short:
  assumes "df \<noteq> []" "length df < 5"
  shows "resistance df = NaN"
proof -
  let ?r = "rolling 5 agg_max (col High (tail 40 df))"
  have ne: "?r \<noteq> []" using assms by simp
  have "resistance df = last (tail 1 ?r)" by (simp add: resistance_def Let_def)
  also have "\<dots> = last ?r" using ne by (rule last_tail_1)
  also have "\<dots> = NaN" using assms by (intro last_rolling_short) simp_all
  finally show ?thesis .
qed

subsection \<open>A constant close\<close>

lemma col_flat:
  assumes "\<forall>b\<in>set df. f b = c"
  shows "col f df = replicate (length df) (Fin c)"
proof -
  have "map (\<lambda>b. Fin (f b)) df = map (\<lambda>b. Fin c) df"
    using assms by (intro map_cong) simp_all
  then show ?thesis by (simp add: col_def map_replicate_const)
qed

lemma map2_fsub_replicate:
  "map2 fsub (replicate n (Fin a)) (Fin a # replicate n (Fin a)) = replicate n (Fin 0)"
  by (induction n) simp_all

lemma diff_replicate: "diff (replicate (Suc n) (Fin a)) = NaN # replicate n (Fin 0)"
  by (simp add: map2_fsub_replicate)

lemma logret_flat:
  assumes "0 < c" "\<forall>b\<in>set df. Close b = c" "df \<noteq> []"
  shows "logret df = NaN # replicate (length df - 1) (Fin 0)"
proof -
  from assms(3) obtain n where n: "length df = Suc n" by (cases df) auto
  have "map flog (col Close df) = replicate (Suc n) (Fin (ln c))"
    using assms(1) by (simp add: col_flat[OF assms(2)] n)
  then show ?thesis by (simp only: logret_def diff_replicate n diff_Suc_1)
qed

lemma dropna_diff_length: "length (dropna (diff s)) \<le> length s - 1"
proof (cases s)
  case Nil
  then show ?thesis by (simp add: dropna_def)
next
  case (Cons x xs)
  have "length (filter (\<lambda>x. \<not> is_nan x) (map2 fsub xs (x # xs))) \<le> length (map2 fsub xs (x # xs))"
    by (rule length_filter_le)
  then show ?thesis using Cons by (simp add: dropna_def)
qed

lemma hv20_short: "length df \<le> 21 \<Longrightarrow> hv20 df = None"
proof -
  assume "length df \<le> 21"
  moreover have "length (dropna (logret df)) \<le> length (map flog (col Close df)) - 1"
    unfolding logret_def by (rule dropna_diff_length)
  ultimately have "\<not> 20 < length (dropna (logret df))" by simp
  then show ?thesis by (simp add: hv20_def)
qed

lemma agg_std_zeros: "1 < n \<Longrightarrow> agg_std (replicate n 0) = Fin 0"
  by (simp add: agg_std_def Let_def sum_list_replicate)

lemma hv20_flat:
  assumes "0 < c" "\<forall>b\<in>set df. Close b = c" "22 \<le> length df"
  shows "hv20 df = Some (Fin 0)"
proof -
  from assms(3) have ne: "df \<noteq> []" by auto
  from assms(3) obtain k where k: "length df = 22 + k"
    using le_Suc_ex by blast
  let ?lr = "NaN # replicate (length df - 1) (Fin 0)"
  have lr: "logret df = ?lr" using assms(1,2) ne by (rule logret_flat)
  have cnt: "20 < length (dropna ?lr)" using assms(3) by (simp add: dropna_def)
  have "tail 20 ?lr = replicate 20 (Fin 0)"
    by (simp add: tail_def k)
  also have "\<dots> = map Fin (replicate 20 0)" by simp
  finally have t: "tail 20 ?lr = map Fin (replicate 20 0)" .
  have "last (rolling 20 agg_std ?lr) =
          (case fin_vals (tail 20 ?lr) of None \<Rightarrow> NaN | Some vs \<Rightarrow> agg_std vs)"
    using assms(3) by (intro last_rolling) simp_all
  also have "\<dots> = agg_std (replicate 20 0)"
    unfolding t by (simp only: fin_vals_map_Fin option.case)
  also have "\<dots> = Fin 0" by (rule agg_std_zeros) simp
  finally have "last (rolling 20 agg_std ?lr) = Fin 0" .
  then show ?thesis using cnt unfolding hv20_def lr by simp
qed

subsection \<open>The example inputs\<close>

lemma ex_rsi_s14: "rsi s14 14 ! 13 = Fin (700 / 13)"
  by (simp add: rsi_nth rsi_gain_def rsi_loss_def rolling_nth roll_at_def window_def s14_def
      where_s_def agg_mean_def flt_def)

lemma ex_rsi_up14: "rsi_loss up14 14 ! 13 = Fin 0"
  by (simp add: rsi_loss_def rolling_nth roll_at_def window_def up14_def
      where_s_def agg_mean_def flt_def)

lemma ex_boll: "fst (bollinger s20 20 2) ! 19 = Fin (21 / 2)"
  "fst (snd (bollinger s20 20 2)) ! 19 = Fin (21 / 2 + 2 * sqrt 35)"
  "snd (snd (bollinger s20 20 2)) ! 19 = Fin (21 / 2 - 2 * sqrt 35)"
  by (simp_all add: bollinger_nth roll_at_def window_def s20_def agg_mean_def agg_std_def Let_def
      power2_eq_square)

lemma length_flat_bars [simp]: "length (flat_bars n) = n"
  by (simp add: flat_bars_def)

lemma close_flat_bars: "\<forall>b\<in>set (flat_bars n). Close b = 100"
  by (simp add: flat_bars_def)

lemma map_close_flat_bars: "map Close (flat_bars n) = replicate n 100"
  by (simp add: flat_bars_def o_def map_replicate_const)

lemma list3: "length v = 3 \<Longrightarrow> v = [v ! 0, v ! 1, v ! 2]"
  by (auto simp: numeral_3_eq_3 length_Suc_conv)

lemma ex6_min: "Min (set (map Low (tail 5 ex6))) = 9337 / 1000"
  by (simp add: ex6_def tail_def)

lemma ex6_max: "Max (set (map High (tail 5 ex6))) = 10125 / 1000"
  by (simp add: ex6_def tail_def)

lemma ex6_round_min: "py_round (Fin (9337 / 1000)) 2 = Fin (934 / 100)"
  by (simp add: round_half_even_def Let_def)

lemma ex6_round_max: "py_round (Fin (10125 / 1000)) 2 = Fin (1012 / 100)"
  by (simp add: round_half_even_def Let_def)

lemma flat_22_bars_proxy_is_null:
  "map_option (hv20_proxy \<circ> volatility) (snapshot (flat_bars 22)) = Some None"
proof -
  have ne: "flat_bars 22 \<noteq> []" by (simp add: flat_bars_def)
  have c: "(0::real) < 100" by simp
  have h: "hv20 (flat_bars 22) = Some (Fin 0)"
    using c close_flat_bars by (rule hv20_flat) simp
  show ?thesis unfolding snapshot_volatility[OF ne] h by simp
qed

section \<open>The properties\<close>

subsection \<open>C1: volatility proxy of a flat series\<close>

text \<open>
  C1, as the code has it. The estimator \<open>hv20\<close> needs more than 20 log-returns that are
  not NaN, and \<open>n\<close> bars give \<open>n - 1\<close> of them. For a series whose close is one positive
  constant: with at least 22 bars the estimate \<open>hv20\<close> is defined and exactly 0; with exactly
  21 bars there are only 20 log-returns, the estimate is None and the proxy field of the
  snapshot is null. What the snapshot holds for 22 bars and more is not part of this
  statement (see \<open>flat_22_bars_proxy_is_null\<close>).
\<close>

theorem flat_series_volatility:
  assumes "0 < c" "\<forall>b\<in>set df. Close b = c"
  shows "(22 \<le> length df \<longrightarrow> hv20 df = Some (Fin 0)) \<and>
         (length df = 21 \<longrightarrow>
            hv20 df = None \<and> map_option (hv20_proxy \<circ> volatility) (snapshot df) = Some None)"
proof -
  have "hv20 df = Some (Fin 0)" if "22 \<le> length df"
    using assms that by (rule hv20_flat)
  moreover have "hv20 df = None \<and> map_option (hv20_proxy \<circ> volatility) (snapshot df) = Some None"
    if "length df = 21"
  proof -
    from that have ne: "df \<noteq> []" by auto
    from that have h: "hv20 df = None" by (intro hv20_short) simp
    show ?thesis unfolding snapshot_volatility[OF ne] h by simp
  qed
  ultimately show ?thesis by blast
qed

text \<open>
  The statement at 22 and at 21 flat bars.
\<close>

theorem flat_series_volatility_witness:
  "(0::real) < 100 \<and> map Close (flat_bars 22) = replicate 22 100 \<and>
   map Close (flat_bars 21) = replicate 21 100 \<and>
   hv20 (flat_bars 22) = Some (Fin 0) \<and> hv20 (flat_bars 21) = None \<and>
   map_option (hv20_proxy \<circ> volatility) (snapshot (flat_bars 21)) = Some None"
proof -
  have c: "(0::real) < 100" by simp
  from flat_series_volatility[OF c close_flat_bars, of 22]
       flat_series_volatility[OF c close_flat_bars, of 21]
  show ?thesis by (simp add: map_close_flat_bars)
qed

text \<open>
  C1 as it is worded fails at 21 flat bars: the proxy field of the snapshot is null,
  not 0.
\<close>

theorem flat_21_bars_proxy_is_null:
  "map Close (flat_bars 21) = replicate 21 100 \<and>
   map_option (hv20_proxy \<circ> volatility) (snapshot (flat_bars 21)) = Some None"
proof -
  have ne: "flat_bars 21 \<noteq> []" by (simp add: flat_bars_def)
  have h: "hv20 (flat_bars 21) = None" by (intro hv20_short) simp
  show ?thesis unfolding snapshot_volatility[OF ne] h by (simp add: map_close_flat_bars)
qed

subsection \<open>C2: levels on fewer than five bars\<close>

text \<open>
  C2 asks for null support and resistance hints and for a snapshot without NaN when the
  series has fewer than 5 bars. On a series of one bar the 5-bar rolling minimum and
  maximum are NaN, \<open>round\<close> keeps NaN, and the snapshot holds NaN in both hints: the
  levels are not passed through the NaN test that every indicator field gets.
\<close>

theorem short_history_levels_are_nan:
  "length one_bar = 1 \<and>
   map_option (support_hint \<circ> levels) (snapshot one_bar) = Some NaN \<and>
   map_option (resistance_hint \<circ> levels) (snapshot one_bar) = Some NaN"
proof -
  have ne: "one_bar \<noteq> []" and l: "length one_bar < 5" by (simp_all add: one_bar_def)
  show ?thesis
    unfolding snapshot_levels[OF ne] support_short[OF ne l] resistance_short[OF ne l]
    by (simp add: one_bar_def)
qed

subsection \<open>C3: on-balance volume\<close>

text \<open>
  C3, as the code has it. For a non-empty series \<open>obv\<close> returns a column of the length of
  the series and its value at position 0 is 0. At every later position \<open>i\<close> take the
  previous value plus the volume of bar \<open>i\<close> when the close rose, the previous value minus
  that volume when the close fell, and the previous value when the close is unchanged, all
  as integers: the value at \<open>i\<close> is that integer wrapped to 64 bits, and it is that integer
  itself whenever it lies between \<open>- 2 ^ 63\<close> and \<open>2 ^ 63 - 1\<close>.
\<close>

theorem obv_signed_sum_int64:
  assumes "df \<noteq> []"
  shows "\<exists>v. obv df = Inr v \<and> length v = length df \<and> sint (v ! 0) = 0 \<and>
           (\<forall>i. 0 < i \<and> i < length df \<longrightarrow>
              (let k = (if Close (df ! (i - 1)) < Close (df ! i)
                        then sint (v ! (i - 1)) + sint (Volume (df ! i))
                        else if Close (df ! i) < Close (df ! (i - 1))
                             then sint (v ! (i - 1)) - sint (Volume (df ! i))
                        else sint (v ! (i - 1)))
               in sint (v ! i) = wrap64 k \<and>
                  (- (2 ^ 63) \<le> k \<and> k < 2 ^ 63 \<longrightarrow> sint (v ! i) = k)))"
proof -
  let ?v = "obv_loop df 1 [0]"
  from assms have len1: "1 \<le> length df" by (cases df) simp_all
  have "obv df = Inr ?v" using assms by (rule obv_nonempty)
  moreover have "length ?v = length df"
    using len1 by (rule obv_loop_length) simp
  moreover have "?v ! 0 = 0"
    by (subst obv_loop_prefix) simp_all
  then have "sint (?v ! 0) = 0" by simp
  moreover have "let k = (if Close (df ! (i - 1)) < Close (df ! i)
                        then sint (?v ! (i - 1)) + sint (Volume (df ! i))
                        else if Close (df ! i) < Close (df ! (i - 1))
                             then sint (?v ! (i - 1)) - sint (Volume (df ! i))
                        else sint (?v ! (i - 1)))
               in sint (?v ! i) = wrap64 k \<and>
                  (- (2 ^ 63) \<le> k \<and> k < 2 ^ 63 \<longrightarrow> sint (?v ! i) = k)"
    if "0 < i \<and> i < length df" for i
  proof -
    have "?v ! i = obv_next df i (?v ! (i - 1))"
      using that by (intro obv_loop_step) simp_all
    then show ?thesis by (rule obv_next_sint)
  qed
  ultimately show ?thesis by blast
qed

text \<open>
  On \<open>ex3\<close> the column is 0, 200, -100.
\<close>

theorem obv_signed_sum_int64_witness:
  "ex3 \<noteq> [] \<and> map_sum id (map sint) (obv ex3) = Inr [0, 200, - 100]"
proof -
  have ne: "ex3 \<noteq> []" by (simp add: ex3_def)
  from obv_signed_sum_int64[OF ne] obtain v where
    v: "obv ex3 = Inr v" "length v = length ex3" "sint (v ! 0) = 0"
    and step: "\<And>i. 0 < i \<and> i < length ex3 \<Longrightarrow>
              (let k = (if Close (ex3 ! (i - 1)) < Close (ex3 ! i)
                        then sint (v ! (i - 1)) + sint (Volume (ex3 ! i))
                        else if Close (ex3 ! i) < Close (ex3 ! (i - 1))
                             then sint (v ! (i - 1)) - sint (Volume (ex3 ! i))
                        else sint (v ! (i - 1)))
               in sint (v ! i) = wrap64 k \<and>
                  (- (2 ^ 63) \<le> k \<and> k < 2 ^ 63 \<longrightarrow> sint (v ! i) = k))"
    by blast
  have l: "length v = 3" using v(2) by (simp add: ex3_def)
  have v1: "sint (v ! 1) = 200" using step[of 1] v(3) by (simp add: ex3_def Let_def)
  have v2: "sint (v ! 2) = - 100" using step[of 2] v1 by (simp add: ex3_def Let_def)
  have "map sint v = [0, 200, - 100]"
    using arg_cong[OF list3[OF l], of "map sint"] v(3) v1 v2 by simp
  with ne v(1) show ?thesis by simp
qed

text \<open>
  C3 as it is worded fails on \<open>big3\<close>: the close rises at position 2, the previous value
  and the volume are both \<open>2 ^ 62\<close>, and the value is \<open>- 2 ^ 63\<close>, not their sum.
\<close>

theorem obv_wraps_at_int64:
  "Close (big3 ! 1) < Close (big3 ! 2) \<and>
   map sint (map Volume big3) = [100, 4611686018427387904, 4611686018427387904] \<and>
   map_sum id (map sint) (obv big3) = Inr [0, 4611686018427387904, - 9223372036854775808]"
proof -
  have ne: "big3 \<noteq> []" by (simp add: big3_def)
  have "obv_loop big3 1 [0] = [0, 4611686018427387904, 9223372036854775808]"
    by (simp add: big3_def)
  then show ?thesis
    unfolding obv_nonempty[OF ne] by (simp add: big3_def)
qed

subsection \<open>C4: range of the RSI\<close>

text \<open>
  C4: at every position where the RSI with period 14 is not NaN it is a real number
  between 0 and 100, and where the rolling average loss is exactly 0 the RSI is NaN.
\<close>

theorem rsi_bounded_or_undefined:
  assumes "i < length s"
  shows "(\<not> is_nan (rsi s 14 ! i) \<longrightarrow> (\<exists>r. rsi s 14 ! i = Fin r \<and> 0 \<le> r \<and> r \<le> 100)) \<and>
         (rsi_loss s 14 ! i = Fin 0 \<longrightarrow> rsi s 14 ! i = NaN)"
  using assms rsi_bounded[of i s] rsi_zero_loss[of i s] by blast

text \<open>
  On the alternating prices the RSI at position 13 is defined; on the rising prices the
  average loss there is 0 and the RSI is NaN.
\<close>

theorem rsi_bounded_or_undefined_witness:
  "(13 < length s14 \<and> \<not> is_nan (rsi s14 14 ! 13) \<and>
      (\<exists>r. rsi s14 14 ! 13 = Fin r \<and> 0 \<le> r \<and> r \<le> 100)) \<and>
   (13 < length up14 \<and> rsi_loss up14 14 ! 13 = Fin 0 \<and> rsi up14 14 ! 13 = NaN)"
proof -
  have a: "13 < length s14" by (simp add: s14_def)
  have b: "\<not> is_nan (rsi s14 14 ! 13)" by (simp add: ex_rsi_s14)
  have c: "13 < length up14" by (simp add: up14_def)
  note d = ex_rsi_up14
  from rsi_bounded_or_undefined[OF a] b rsi_bounded_or_undefined[OF c] d a c
  show ?thesis by blast
qed

subsection \<open>C5: MACD\<close>

text \<open>
  C5: on the close column of a series the MACD line, the signal line and the histogram
  have the length of the series, each is a real number at every position, the first
  included, and the histogram is the line minus the signal.
\<close>

theorem macd_defined_everywhere:
  assumes "i < length df"
  shows "length (fst (macd (col Close df) 12 26 9)) = length df \<and>
         length (fst (snd (macd (col Close df) 12 26 9))) = length df \<and>
         length (snd (snd (macd (col Close df) 12 26 9))) = length df \<and>
         (\<exists>l sg. fst (macd (col Close df) 12 26 9) ! i = Fin l \<and>
                 fst (snd (macd (col Close df) 12 26 9)) ! i = Fin sg \<and>
                 snd (snd (macd (col Close df) 12 26 9)) ! i = Fin (l - sg))"
  using assms unfolding col_map_Fin macd_fin
  by (simp add: macd_real_def Let_def)

text \<open>
  The first position of \<open>ex3\<close>.
\<close>

theorem macd_defined_everywhere_witness:
  "0 < length ex3 \<and>
   fst (macd (col Close ex3) 12 26 9) ! 0 = Fin 0 \<and>
   fst (snd (macd (col Close ex3) 12 26 9)) ! 0 = Fin 0 \<and>
   snd (snd (macd (col Close ex3) 12 26 9)) ! 0 = Fin 0"
proof -
  have a: "0 < length ex3" by (simp add: ex3_def)
  have l: "fst (macd (col Close ex3) 12 26 9) ! 0 = Fin 0"
    by (simp add: macd_def Let_def col_def ex3_def)
  have s: "fst (snd (macd (col Close ex3) 12 26 9)) ! 0 = Fin 0"
    by (simp add: macd_def Let_def col_def ex3_def)
  from macd_defined_everywhere[OF a] l s a show ?thesis by auto
qed

subsection \<open>C6: order of the Bollinger bands\<close>

text \<open>
  C6: at every position where the moving average, the upper band and the lower band are
  not NaN, the three are real numbers with lower \<open>\<le>\<close> average \<open>\<le>\<close> upper.
\<close>

theorem bollinger_band_order:
  assumes "i < length s"
    and "\<not> is_nan (fst (bollinger s 20 2) ! i)"
    and "\<not> is_nan (fst (snd (bollinger s 20 2)) ! i)"
    and "\<not> is_nan (snd (snd (bollinger s 20 2)) ! i)"
  shows "\<exists>ma upper lower.
           fst (bollinger s 20 2) ! i = Fin ma \<and>
           fst (snd (bollinger s 20 2)) ! i = Fin upper \<and>
           snd (snd (bollinger s 20 2)) ! i = Fin lower \<and>
           lower \<le> ma \<and> ma \<le> upper"
proof -
  from assms(1,2) obtain m where m: "roll_at 20 agg_mean s i = Fin m"
    using roll_at_mean_cases[of 20 s i] by (auto simp: bollinger_nth)
  from assms(1,3) m obtain sd where sd: "0 \<le> sd" "roll_at 20 agg_std s i = Fin sd"
    using roll_at_std_cases[of 20 s i] by (auto simp: bollinger_nth)
  have "fst (bollinger s 20 2) ! i = Fin m"
    using assms(1) m by (simp add: bollinger_nth)
  moreover have "fst (snd (bollinger s 20 2)) ! i = Fin (m + 2 * sd)"
    using assms(1) m sd by (simp add: bollinger_nth)
  moreover have "snd (snd (bollinger s 20 2)) ! i = Fin (m - 2 * sd)"
    using assms(1) m sd by (simp add: bollinger_nth)
  moreover have "m - 2 * sd \<le> m" "m \<le> m + 2 * sd"
    using sd(1) by simp_all
  ultimately show ?thesis by blast
qed

text \<open>
  Position 19 of the prices 1 to 20.
\<close>

theorem bollinger_band_order_witness:
  "19 < length s20 \<and>
   fst (bollinger s20 20 2) ! 19 = Fin (21 / 2) \<and>
   fst (snd (bollinger s20 20 2)) ! 19 = Fin (21 / 2 + 2 * sqrt 35) \<and>
   snd (snd (bollinger s20 20 2)) ! 19 = Fin (21 / 2 - 2 * sqrt 35) \<and>
   21 / 2 - 2 * sqrt 35 \<le> (21 / 2 :: real) \<and> (21 / 2 :: real) \<le> 21 / 2 + 2 * sqrt 35"
proof -
  have a: "19 < length s20" by (simp add: s20_def)
  have b: "\<not> is_nan (fst (bollinger s20 20 2) ! 19)"
    "\<not> is_nan (fst (snd (bollinger s20 20 2)) ! 19)"
    "\<not> is_nan (snd (snd (bollinger s20 20 2)) ! 19)"
    by (simp_all add: ex_boll)
  from bollinger_band_order[OF a b] a show ?thesis
    by (auto simp: ex_boll)
qed

subsection \<open>C7: series shorter than the window\<close>

text \<open>
  C7: on a series of fewer than 20 values the three Bollinger columns are NaN at every
  position, on fewer than 14 values the RSI is, and on fewer than 20 bars the Chaikin
  money flow is.
\<close>

theorem short_series_all_undefined:
  "(length s < 20 \<longrightarrow>
      fst (bollinger s 20 2) = replicate (length s) NaN \<and>
      fst (snd (bollinger s 20 2)) = replicate (length s) NaN \<and>
      snd (snd (bollinger s 20 2)) = replicate (length s) NaN) \<and>
   (length s < 14 \<longrightarrow> rsi s 14 = replicate (length s) NaN) \<and>
   (length df < 20 \<longrightarrow> chaikin_mf df 20 = replicate (length df) NaN)"
  using short_bollinger[of s] short_rsi[of s] short_cmf[of df] by blast

text \<open>
  The three bars of \<open>ex3\<close>.
\<close>

theorem short_series_all_undefined_witness:
  "length (col Close ex3) < 14 \<and> length ex3 < 20 \<and>
   fst (bollinger (col Close ex3) 20 2) = [NaN, NaN, NaN] \<and>
   fst (snd (bollinger (col Close ex3) 20 2)) = [NaN, NaN, NaN] \<and>
   snd (snd (bollinger (col Close ex3) 20 2)) = [NaN, NaN, NaN] \<and>
   rsi (col Close ex3) 14 = [NaN, NaN, NaN] \<and>
   chaikin_mf ex3 20 = [NaN, NaN, NaN]"
proof -
  have l: "length ex3 = 3" by (simp add: ex3_def)
  have r: "replicate 3 NaN = [NaN, NaN, NaN]" by (simp add: numeral_3_eq_3)
  from short_series_all_undefined[of "col Close ex3" ex3] l r show ?thesis
    by simp
qed

subsection \<open>C8: the empty series\<close>

text \<open>
  C8: on an empty frame \<open>main\<close> raises SystemExit and leaves the files as they were, so no
  snapshot is written; on every other frame the indicator columns are computed, no
  exception is raised and both files are written.
\<close>

theorem empty_series_only_failure:
  "(df = [] \<longrightarrow> main df fs = (Some (SystemExit ''Keine Daten geladen.''), fs)) \<and>
   (df \<noteq> [] \<longrightarrow>
      (\<exists>fr. enrich df = Inr fr \<and>
            main df fs = (None, fs\<lparr>rhm_latest_json := Some (build_payload fr),
                                    rhm_prices_last120_csv := Some (tail_frame 120 fr)\<rparr>)))"
  using main_empty[of fs] main_nonempty[of df fs] by blast

text \<open>
  The run on no bars and the run on \<open>ex3\<close>, both starting without files.
\<close>

theorem empty_series_only_failure_witness:
  "main [] no_files = (Some (SystemExit ''Keine Daten geladen.''), no_files) \<and>
   rhm_latest_json (snd (main [] no_files)) = None \<and>
   rhm_prices_last120_csv (snd (main [] no_files)) = None \<and>
   ex3 \<noteq> [] \<and> fst (main ex3 no_files) = None \<and>
   rhm_latest_json (snd (main ex3 no_files)) \<noteq> None \<and>
   rhm_prices_last120_csv (snd (main ex3 no_files)) \<noteq> None"
proof -
  have ne: "ex3 \<noteq> []" by (simp add: ex3_def)
  from empty_series_only_failure[of "[]" no_files] empty_series_only_failure[of ex3 no_files] ne
  show ?thesis by (auto simp: no_files_def)
qed

subsection \<open>C9: a bar with High = Low\<close>

text \<open>
  C9: when bar \<open>j\<close> has High = Low, the Chaikin money flow with period 20 is NaN at
  every position \<open>i\<close> from \<open>j\<close> to \<open>j + 19\<close>, the positions whose window holds bar \<open>j\<close>.
\<close>

theorem cmf_poisoned_by_zero_range:
  assumes "j < length df" "High (df ! j) = Low (df ! j)" "j \<le> i" "i < j + 20" "i < length df"
  shows "chaikin_mf df 20 ! i = NaN"
proof -
  let ?mf_vol = "map2 fmul
                (map2 fdiv
                   (map2 fsub (map2 fsub (col Close df) (col Low df))
                              (map2 fsub (col High df) (col Close df)))
                   (replace_s 0 NaN (map2 fsub (col High df) (col Low df))))
                (vol_col df)"
  have "?mf_vol ! j = NaN"
    using assms(1,2) by (simp add: replace_s_def)
  then have "\<forall>a. ?mf_vol ! j \<noteq> Fin a" by simp
  moreover have "i < length ?mf_vol" using assms(5) by simp
  ultimately have "roll_at 20 agg_sum ?mf_vol i = NaN"
    using assms(3,4) by (intro roll_at_poison[where j = j]) 
  then show ?thesis
    using assms(5) by (simp add: chaikin_mf_nth)
qed

text \<open>
  Bar 5 of \<open>cmf_bars\<close> and position 24, whose own bar has High above Low.
\<close>

theorem cmf_poisoned_by_zero_range_witness:
  "5 < length cmf_bars \<and> High (cmf_bars ! 5) = Low (cmf_bars ! 5) \<and>
   High (cmf_bars ! 24) \<noteq> Low (cmf_bars ! 24) \<and> (5::nat) \<le> 24 \<and> (24::nat) < 5 + 20 \<and>
   24 < length cmf_bars \<and> chaikin_mf cmf_bars 20 ! 24 = NaN"
proof -
  have a: "5 < length cmf_bars" "24 < length cmf_bars" by (simp_all add: cmf_bars_def)
  have b: "High (cmf_bars ! 5) = Low (cmf_bars ! 5)" by (simp add: cmf_bars_def)
  have c: "High (cmf_bars ! 24) \<noteq> Low (cmf_bars ! 24)" by (simp add: cmf_bars_def)
  from cmf_poisoned_by_zero_range[OF a(1) b _ _ a(2)] a b c show ?thesis by simp
qed

subsection \<open>C10: support and resistance\<close>

text \<open>
  C10: for a series of at least 5 bars the support hint of the snapshot is the least Low
  of the last 5 bars rounded to 2 decimals and the resistance hint is the greatest High
  of the last 5 bars rounded to 2 decimals; the 40-bar window does not occur in either.
\<close>

theorem levels_from_last_five_bars:
  assumes "5 \<le> length df"
  shows "map_option (support_hint \<circ> levels) (snapshot df) =
           Some (py_round (Fin (Min (set (map Low (tail 5 df))))) 2) \<and>
         map_option (resistance_hint \<circ> levels) (snapshot df) =
           Some (py_round (Fin (Max (set (map High (tail 5 df))))) 2)"
proof -
  from assms have ne: "df \<noteq> []" by auto
  show ?thesis
    unfolding snapshot_levels[OF ne] support_last5[OF assms] resistance_last5[OF assms]
    by simp
qed

text \<open>
  On \<open>ex6\<close> the hints are 9.34 and 10.12 (10.125 is a tie and goes to the even digit).
\<close>

theorem levels_from_last_five_bars_witness:
  "5 \<le> length ex6 \<and>
   map_option (support_hint \<circ> levels) (snapshot ex6) = Some (Fin (934 / 100)) \<and>
   map_option (resistance_hint \<circ> levels) (snapshot ex6) = Some (Fin (1012 / 100))"
proof -
  have a: "5 \<le> length ex6" by (simp add: ex6_def)
  from levels_from_last_five_bars[OF a] a show ?thesis
    unfolding ex6_min ex6_max ex6_round_min ex6_round_max by simp
qed

end
